theory Spec2Isabelle
  imports Main
begin

section \<open>The flag checker \<^verbatim>\<open>gfx/flag_check.py\<close>\<close>

text \<open>
  The script has three functions: \<^verbatim>\<open>read_tags_from_file\<close> parses country tags out of a
  text file, \<^verbatim>\<open>validate_flags\<close> lists the flag files that are not in a folder, and
  \<^verbatim>\<open>create_missing_flags\<close> fills the gaps with copies of \<^verbatim>\<open>GHO.tga\<close>. All three talk to the
  filesystem and to the console, so the model threads a \<open>world\<close> through them.

  Python strings are modelled as \<open>string\<close>; a \<open>char\<close> stands for the code point of the same
  number, so the model covers the texts whose code points are below 256.
\<close>

subsection \<open>Strings\<close>

definition LF :: char where
  "LF = CHR 0x0A"

definition CR :: char where
  "CR = CHR 0x0D"

text \<open>\<^verbatim>\<open>s.startswith(prefix)\<close> and \<^verbatim>\<open>s.endswith(suffix)\<close>.\<close>

definition startswith :: "string \<Rightarrow> string \<Rightarrow> bool" where
  "startswith s prefix = (take (length prefix) s = prefix)"

definition endswith :: "string \<Rightarrow> string \<Rightarrow> bool" where
  "endswith s suffix =
     (length suffix \<le> length s \<and> drop (length s - length suffix) s = suffix)"

text \<open>
  \<^verbatim>\<open>template.format(tag=tag)\<close> for a string \<^verbatim>\<open>tag\<close> and a template whose only replacement
  field is \<^verbatim>\<open>{tag}\<close>: every occurrence of the field is replaced by the tag.
\<close>

fun format_tag :: "string \<Rightarrow> string \<Rightarrow> string" where
  "format_tag [] tag = []"
| "format_tag (c # cs) tag =
     (if startswith (c # cs) ''{tag}'' then tag @ format_tag (drop 4 cs) tag
      else c # format_tag cs tag)"

subsection \<open>Paths\<close>

text \<open>
  \<^verbatim>\<open>os.path.join(a, b)\<close> and \<^verbatim>\<open>os.path.basename(p)\<close> in their POSIX flavour
  (\<^verbatim>\<open>posixpath\<close>): an absolute second component replaces the first; otherwise the two are
  put together with exactly one separator, unless the first is empty or ends with one.
\<close>

definition join :: "string \<Rightarrow> string \<Rightarrow> string" where
  "join a b =
     (if startswith b ''/'' then b
      else if a = [] \<or> endswith a ''/'' then a @ b
      else a @ ''/'' @ b)"

definition basename :: "string \<Rightarrow> string" where
  "basename p = rev (takeWhile (\<lambda>c. c \<noteq> CHR ''/'') (rev p))"

subsection \<open>The world: files, refusals, library calls, console\<close>

text \<open>
  A file holds bytes. \<open>Utf8 t\<close> are bytes that decode as UTF-8 to the text \<open>t\<close>;
  \<open>Undecodable t\<close> are bytes that do not, the reader handing out the lines of \<open>t\<close> before
  the decoder meets the invalid byte. A path names a regular file, a directory, or nothing.
  Paths are compared as strings: the model has no links and no two spellings of one path.
\<close>

datatype content = Utf8 string | Undecodable string

datatype node = File content | Dir

datatype error =
  FileNotFoundError | IsADirectoryError | PermissionError | UnicodeDecodeError
  | SameFileError | OSError

text \<open>
  The library calls that the claims speak of are logged: \<open>IsFile p b\<close> is a call of
  \<^verbatim>\<open>os.path.isfile(p)\<close> that returned \<open>b\<close>, \<open>Copy2 src dst r\<close> a call of
  \<^verbatim>\<open>shutil.copy2(src, dst)\<close> that raised \<open>e\<close> when \<open>r = Some e\<close> and returned otherwise.
\<close>

datatype call = IsFile string bool | Copy2 string string "error option"

text \<open>
  One \<^verbatim>\<open>print\<close> call: its text, and for the f-strings that format a caught exception
  \<^verbatim>\<open>{e}\<close> the text before it and the exception.
\<close>

datatype printed = Line string | ErrorLine string error

text \<open>
  \<open>read_refused\<close> and \<open>write_refused\<close> give, for a path, the error with which the operating
  system refuses to open the file there for reading, or to create or overwrite it
  (permissions, a missing parent directory, a full disk).
\<close>

record world =
  files :: "string \<Rightarrow> node option"
  read_refused :: "string \<Rightarrow> error option"
  write_refused :: "string \<Rightarrow> error option"
  calls :: "call list"
  stdout :: "printed list"

definition print :: "printed \<Rightarrow> world \<Rightarrow> world" where
  "print x w = w\<lparr>stdout := stdout w @ [x]\<rparr>"

definition print_all :: "printed list \<Rightarrow> world \<Rightarrow> world" where
  "print_all xs w = foldl (\<lambda>w x. print x w) w xs"

definition is_regular :: "world \<Rightarrow> string \<Rightarrow> bool" where
  "is_regular w p = (case files w p of Some (File c) \<Rightarrow> True | _ \<Rightarrow> False)"

definition is_dir :: "world \<Rightarrow> string \<Rightarrow> bool" where
  "is_dir w p = (files w p = Some Dir)"

text \<open>\<^verbatim>\<open>os.path.isfile(p)\<close>: true for a regular file, false for a directory or nothing.\<close>

definition isfile :: "string \<Rightarrow> world \<Rightarrow> bool \<times> world" where
  "isfile p w = (let b = is_regular w p in (b, w\<lparr>calls := calls w @ [IsFile p b]\<rparr>))"

subsection \<open>\<^verbatim>\<open>validate_flags\<close>\<close>

definition required_flags :: "string list" where
  "required_flags =
     [''{tag}.tga'', ''{tag}_fascist.tga'', ''{tag}_communist.tga'',
      ''{tag}_monarchy.tga'', ''{tag}_republic.tga'']"

text \<open>The inner loop \<^verbatim>\<open>for flag_template in required_flags\<close>, for one tag.\<close>

fun check_templates ::
  "string \<Rightarrow> string \<Rightarrow> string list \<Rightarrow> string list \<times> world \<Rightarrow> string list \<times> world" where
  "check_templates folder_path tag [] (missing_flags, w) = (missing_flags, w)"
| "check_templates folder_path tag (flag_template # rest) (missing_flags, w) =
     (let flag_file = format_tag flag_template tag;
          flag_path = join folder_path flag_file;
          (present, w') = isfile flag_path w
      in check_templates folder_path tag rest
           (if \<not> present then missing_flags @ [flag_file] else missing_flags, w'))"

text \<open>The outer loop \<^verbatim>\<open>for tag in tags\<close>.\<close>

fun check_tags ::
  "string \<Rightarrow> string list \<Rightarrow> string list \<times> world \<Rightarrow> string list \<times> world" where
  "check_tags folder_path [] acc = acc"
| "check_tags folder_path (tag # tags) acc =
     check_tags folder_path tags (check_templates folder_path tag required_flags acc)"

definition validate_flags ::
  "string \<Rightarrow> string list \<Rightarrow> bool \<Rightarrow> world \<Rightarrow> string list \<times> world" where
  "validate_flags folder_path tags auto_fix w =
     (let (missing_flags, w1) = check_tags folder_path tags ([], w);
          w2 = (if missing_flags \<noteq> [] then
                  print (Line (LF # ''Please review the missing files and add them to the folder.''))
                    (print_all (map (\<lambda>flag. Line (''- '' @ flag)) missing_flags)
                      (print (Line ''The following flag files are missing:'') w1))
                else print (Line ''All required flag files are present!'') w1)
      in (missing_flags, w2))"

subsection \<open>\<^verbatim>\<open>create_missing_flags\<close>\<close>

text \<open>
  \<^verbatim>\<open>shutil.copyfile(src, dst)\<close>: refuses to copy a file onto itself, reads the source and
  creates or overwrites the destination with its bytes.
\<close>

definition copyfile :: "string \<Rightarrow> string \<Rightarrow> world \<Rightarrow> error + world" where
  "copyfile src dst w =
     (if src = dst \<and> files w src \<noteq> None then Inl SameFileError
      else
        (case files w src of
           None \<Rightarrow> Inl FileNotFoundError
         | Some Dir \<Rightarrow> Inl IsADirectoryError
         | Some (File c) \<Rightarrow>
             (case read_refused w src of
                Some e \<Rightarrow> Inl e
              | None \<Rightarrow>
                  if is_dir w dst then Inl IsADirectoryError
                  else
                    (case write_refused w dst of
                       Some e \<Rightarrow> Inl e
                     | None \<Rightarrow> Inr (w\<lparr>files := (files w)(dst \<mapsto> File c)\<rparr>)))))"

text \<open>
  \<^verbatim>\<open>shutil.copy2(src, dst)\<close>. As the library documents, a destination that is a directory
  receives the copy inside it, under the base name of the source. The call returns the path
  written, or raises. (File metadata is not modelled.)
\<close>

definition copy2 :: "string \<Rightarrow> string \<Rightarrow> world \<Rightarrow> (error + string) \<times> world" where
  "copy2 src dst w =
     (let dst' = (if is_dir w dst then join dst (basename src) else dst) in
      case copyfile src dst' w of
        Inl e \<Rightarrow> (Inl e, w\<lparr>calls := calls w @ [Copy2 src dst (Some e)]\<rparr>)
      | Inr w' \<Rightarrow> (Inr dst', w'\<lparr>calls := calls w' @ [Copy2 src dst None]\<rparr>))"

text \<open>
  The loop \<^verbatim>\<open>for flag_file in missing_flags\<close> with its \<^verbatim>\<open>try\<close>/\<^verbatim>\<open>except Exception\<close>, on
  the loop's variables \<^verbatim>\<open>success\<close> and \<^verbatim>\<open>created_files\<close>.
\<close>

fun copy_flags ::
  "string \<Rightarrow> string \<Rightarrow> string list \<Rightarrow> bool \<times> string list \<times> world
     \<Rightarrow> bool \<times> string list \<times> world" where
  "copy_flags folder_path template_file [] st = st"
| "copy_flags folder_path template_file (flag_file # rest) (success, created_files, w) =
     (let target_path = join folder_path flag_file in
      case copy2 template_file target_path w of
        (Inr written, w') \<Rightarrow>
          copy_flags folder_path template_file rest (success, created_files @ [flag_file], w')
      | (Inl e, w') \<Rightarrow>
          copy_flags folder_path template_file rest
            (False, created_files,
             print (ErrorLine (''Error creating '' @ flag_file @ '': '') e) w'))"

definition create_missing_flags :: "string \<Rightarrow> string list \<Rightarrow> world \<Rightarrow> bool \<times> world" where
  "create_missing_flags folder_path missing_flags w =
     (let template_file = join folder_path ''GHO.tga'';
          (present, w1) = isfile template_file w
      in if \<not> present then
           (False,
            print (Line (''Error: Template file '' @ [CHR 0x27] @ template_file @ [CHR 0x27]
                         @ '' not found.'')) w1)
         else
           (let (success, created_files, w2) =
                  copy_flags folder_path template_file missing_flags (True, [], w1);
                w3 = (if created_files \<noteq> [] then
                        print_all (map (\<lambda>flag. Line (''- '' @ flag)) created_files)
                          (print (Line (LF # ''Created the following flag files:'')) w2)
                      else w2)
            in (success, w3)))"

subsection \<open>\<^verbatim>\<open>read_tags_from_file\<close>\<close>

text \<open>
  \<^verbatim>\<open>str.isspace\<close> on one character, which is also what \<^verbatim>\<open>\s\<close> matches in a text pattern:
  the code points 9 to 13, 28 to 32, 133 and 160 (among those below 256).
\<close>

definition isspace :: "char \<Rightarrow> bool" where
  "isspace c =
     (let n = (of_char c :: nat) in (9 \<le> n \<and> n \<le> 13) \<or> (28 \<le> n \<and> n \<le> 32) \<or> n = 133 \<or> n = 160)"

definition strip :: "string \<Rightarrow> string" where
  "strip s = rev (dropWhile isspace (rev (dropWhile isspace s)))"

text \<open>The character class \<^verbatim>\<open>[A-Z0-9]\<close>.\<close>

definition tag_char :: "char \<Rightarrow> bool" where
  "tag_char c =
     (let n = (of_char c :: nat) in (65 \<le> n \<and> n \<le> 90) \<or> (48 \<le> n \<and> n \<le> 57))"

text \<open>
  \<^verbatim>\<open>re.match(r'([A-Z0-9]{3})\s*=', line)\<close> and its group 1: three characters of the class at
  the start of the line, then the longest run of whitespace, then \<^verbatim>\<open>=\<close>. (A shorter run of
  whitespace cannot be followed by \<^verbatim>\<open>=\<close>, so backtracking finds nothing more.)
\<close>

definition tag_match :: "string \<Rightarrow> string option" where
  "tag_match line =
     (let group1 = take 3 line in
      if length group1 = 3 \<and> list_all tag_char group1
         \<and> startswith (dropWhile isspace (drop 3 line)) ''=''
      then Some group1 else None)"

text \<open>
  Iterating over a file opened in text mode: universal newlines turn \<^verbatim>\<open>\r\n\<close> and a lone
  \<^verbatim>\<open>\r\<close> into \<^verbatim>\<open>\n\<close>, and every line keeps its \<^verbatim>\<open>\n\<close> (the last line may have none).
\<close>

function readlines :: "string \<Rightarrow> string list" where
  "readlines [] = []"
| "readlines (c # cs) =
     (if c = LF then [LF] # readlines cs
      else if c = CR then [LF] # readlines (if startswith cs [LF] then drop 1 cs else cs)
      else (case readlines cs of [] \<Rightarrow> [[c]] | l # ls \<Rightarrow> (c # l) # ls))"
  by pat_completeness auto
termination
  by (relation "measure length") auto

text \<open>
  \<^verbatim>\<open>open(file_path, 'r', encoding='utf-8')\<close> and the lines the file object then yields, each
  either a line or the error that reading it raises.
\<close>

definition open_read :: "string \<Rightarrow> world \<Rightarrow> error + (error + string) list" where
  "open_read file_path w =
     (case files w file_path of
        None \<Rightarrow> Inl FileNotFoundError
      | Some Dir \<Rightarrow> Inl IsADirectoryError
      | Some (File c) \<Rightarrow>
          (case read_refused w file_path of
             Some e \<Rightarrow> Inl e
           | None \<Rightarrow>
               Inr (case c of
                      Utf8 t \<Rightarrow> map Inr (readlines t)
                    | Undecodable t \<Rightarrow> map Inr (readlines t) @ [Inl UnicodeDecodeError])))"

text \<open>The body of the loop \<^verbatim>\<open>for line in file\<close>, on the list \<^verbatim>\<open>tags\<close>.\<close>

definition scan_line :: "string \<Rightarrow> string list \<Rightarrow> string list" where
  "scan_line raw tags =
     (let line = strip raw in
      if line = [] \<or> startswith line ''#'' then tags
      else
        (case tag_match line of
           Some tag \<Rightarrow> tags @ [tag]
         | None \<Rightarrow> tags))"

text \<open>The loop itself; an error raised by the iteration leaves it.\<close>

fun scan_lines :: "(error + string) list \<Rightarrow> string list \<Rightarrow> error + string list" where
  "scan_lines [] tags = Inr tags"
| "scan_lines (Inl e # rest) tags = Inl e"
| "scan_lines (Inr raw # rest) tags = scan_lines rest (scan_line raw tags)"

definition read_tags_from_file :: "string \<Rightarrow> world \<Rightarrow> string list \<times> world" where
  "read_tags_from_file file_path w =
     (case (case open_read file_path w of
              Inl e \<Rightarrow> Inl e
            | Inr file \<Rightarrow> scan_lines file [])
      of
        Inl e \<Rightarrow> ([], print (ErrorLine ''Error reading tags file: '' e) w)
      | Inr tags \<Rightarrow> (tags, w))"

section \<open>Vocabulary of the properties\<close>

text \<open>
  The specification's flag requirement: the five suffixes \<^verbatim>\<open>.tga\<close>, \<^verbatim>\<open>_fascist.tga\<close>,
  \<^verbatim>\<open>_communist.tga\<close>, \<^verbatim>\<open>_monarchy.tga\<close>, \<^verbatim>\<open>_republic.tga\<close> appended to an identifier, and
  the candidate filenames of an identifier list, identifier by identifier.
\<close>

definition spec_flag_names :: "string \<Rightarrow> string list" where
  "spec_flag_names tag =
     [tag @ ''.tga'', tag @ ''_fascist.tga'', tag @ ''_communist.tga'',
      tag @ ''_monarchy.tga'', tag @ ''_republic.tga'']"

definition spec_candidates :: "string list \<Rightarrow> string list" where
  "spec_candidates tags = concat (map spec_flag_names tags)"

text \<open>The existence check of one candidate name, as it is logged.\<close>

definition probe :: "string \<Rightarrow> world \<Rightarrow> string \<Rightarrow> call" where
  "probe folder_path w name =
     IsFile (join folder_path name) (is_regular w (join folder_path name))"

definition missing_line :: "string \<Rightarrow> printed" where
  "missing_line flag = Line (''- '' @ flag)"

text \<open>The diagnostics of \<^verbatim>\<open>create_missing_flags\<close> and \<^verbatim>\<open>read_tags_from_file\<close>.\<close>

definition template_missing_line :: "string \<Rightarrow> printed" where
  "template_missing_line template_file =
     Line (''Error: Template file '' @ [CHR 0x27] @ template_file @ [CHR 0x27] @ '' not found.'')"

definition error_line :: "error \<Rightarrow> printed" where
  "error_line e = ErrorLine ''Error reading tags file: '' e"

subsection \<open>Example worlds\<close>

text \<open>
  A folder \<^verbatim>\<open>d\<close> with the template, every flag of \<^verbatim>\<open>GHO\<close> and every flag of \<^verbatim>\<open>USA\<close> but the
  monarchy one.
\<close>

definition image :: content where
  "image = Undecodable []"

definition flags_folder :: world where
  "flags_folder =
     \<lparr>files = map_of
        [(''d/GHO.tga'', File image),
         (''d/GHO_fascist.tga'', File image),
         (''d/GHO_communist.tga'', File image),
         (''d/GHO_monarchy.tga'', File image),
         (''d/GHO_republic.tga'', File image),
         (''d/USA.tga'', File image),
         (''d/USA_fascist.tga'', File image),
         (''d/USA_communist.tga'', File image),
         (''d/USA_republic.tga'', File image)],
      read_refused = (\<lambda>p. None), write_refused = (\<lambda>p. None), calls = [], stdout = []\<rparr>"

text \<open>A folder without the template \<^verbatim>\<open>GHO.tga\<close>.\<close>

definition no_template :: world where
  "no_template =
     \<lparr>files = map_of [(''d/USA.tga'', File image)],
      read_refused = (\<lambda>p. None), write_refused = (\<lambda>p. None), calls = [], stdout = []\<rparr>"


text \<open>A folder with the template in which \<^verbatim>\<open>USA.tga\<close> is the name of a directory.\<close>

definition directory_in_the_way :: world where
  "directory_in_the_way =
     \<lparr>files = map_of [(''d/GHO.tga'', File image), (''d/USA.tga'', Dir)],
      read_refused = (\<lambda>p. None), write_refused = (\<lambda>p. None), calls = [], stdout = []\<rparr>"

text \<open>
  Tag files: one with comments, blank lines, a Windows line end, indentation and a repeated
  declaration; one with a two-character declaration; one whose bytes stop decoding after
  the first line; one that may not be read; and a directory.
\<close>

definition tag_files :: world where
  "tag_files =
     \<lparr>files = map_of
        [(''countries.txt'',
          File (Utf8 (''# ABC = x'' @ [LF] @ [LF] @ ''ABC = description'' @ [CR, LF]
                      @ ''  USA   = United States'' @ [LF] @ ''ABC = description''))),
         (''short.txt'', File (Utf8 (''AB = x'' @ [LF]))),
         (''broken.txt'', File (Undecodable (''GHO = Ghana'' @ [LF]))),
         (''secret.txt'', File (Utf8 (''GHO = Ghana'' @ [LF]))),
         (''folder'', Dir)],
      read_refused = (\<lambda>p. if p = ''secret.txt'' then Some PermissionError else None),
      write_refused = (\<lambda>p. None), calls = [], stdout = []\<rparr>"

section \<open>Properties of \<^verbatim>\<open>validate_flags\<close>\<close>

lemma format_required_flags:
  "map (\<lambda>t. format_tag t tag) required_flags = spec_flag_names tag"
  by (simp add: required_flags_def spec_flag_names_def startswith_def)

lemma is_regular_calls [simp]: "is_regular (w\<lparr>calls := cs\<rparr>) p = is_regular w p"
  by (simp add: is_regular_def)

lemma is_regular_stdout [simp]: "is_regular (w\<lparr>stdout := out\<rparr>) p = is_regular w p"
  by (simp add: is_regular_def)

lemma check_templates_eq:
  "check_templates folder_path tag ts (acc, w) =
     (acc @ filter (\<lambda>n. \<not> is_regular w (join folder_path n)) (map (\<lambda>t. format_tag t tag) ts),
      w\<lparr>calls := calls w @ map (probe folder_path w) (map (\<lambda>t. format_tag t tag) ts)\<rparr>)"
proof (induction ts arbitrary: acc w)
  case Nil
  show ?case by simp
next
  case (Cons t ts)
  show ?case
    by (simp add: Cons.IH isfile_def Let_def probe_def)
qed

lemma check_tags_eq:
  "check_tags folder_path tags (acc, w) =
     (acc @ filter (\<lambda>n. \<not> is_regular w (join folder_path n)) (spec_candidates tags),
      w\<lparr>calls := calls w @ map (probe folder_path w) (spec_candidates tags)\<rparr>)"
proof (induction tags arbitrary: acc w)
  case Nil
  show ?case by (simp add: spec_candidates_def)
next
  case (Cons t ts)
  show ?case
    by (simp add: Cons.IH check_templates_eq format_required_flags spec_candidates_def probe_def)
qed

lemma print_all_eq: "print_all xs w = w\<lparr>stdout := stdout w @ xs\<rparr>"
  unfolding print_all_def
  by (induction xs arbitrary: w) (simp_all add: print_def)

text \<open>The whole of \<^verbatim>\<open>validate_flags\<close> in closed form: the result and the world it leaves.\<close>

lemma validate_flags_eq:
  "validate_flags folder_path tags auto_fix w =
     (let m = filter (\<lambda>n. \<not> is_regular w (join folder_path n)) (spec_candidates tags) in
      (m, w\<lparr>calls := calls w @ map (probe folder_path w) (spec_candidates tags),
            stdout := stdout w @
              (if m = [] then [Line ''All required flag files are present!'']
               else Line ''The following flag files are missing:'' # map missing_line m @
                    [Line (LF # ''Please review the missing files and add them to the folder.'')])\<rparr>))"
  by (simp add: validate_flags_def check_tags_eq print_all_eq print_def Let_def missing_line_def)

lemma validate_flags_fst:
  "fst (validate_flags folder_path tags auto_fix w) =
     filter (\<lambda>n. \<not> is_regular w (join folder_path n)) (spec_candidates tags)"
  by (simp add: validate_flags_eq Let_def)

lemma flags_folder_regular:
  "is_regular flags_folder p =
     (p \<in> set [''d/GHO.tga'', ''d/GHO_fascist.tga'', ''d/GHO_communist.tga'',
               ''d/GHO_monarchy.tga'', ''d/GHO_republic.tga'', ''d/USA.tga'',
               ''d/USA_fascist.tga'', ''d/USA_communist.tga'', ''d/USA_republic.tga''])"
  by (simp add: is_regular_def flags_folder_def)

lemma filter_eq_replicate: "filter (\<lambda>n. n = x) xs = replicate (count_list xs x) x"
  by (induction xs) simp_all

lemma count_list_distinct: "distinct xs \<Longrightarrow> x \<in> set xs \<Longrightarrow> count_list xs x = 1"
  by (induction xs) auto

lemma spec_candidates_mem:
  "n \<in> set (spec_candidates ts) \<Longrightarrow> \<exists>t s. t \<in> set ts \<and> n = t @ s"
  by (auto simp: spec_candidates_def spec_flag_names_def)

lemma distinct_spec_flag_names: "distinct (spec_flag_names t)"
  by (simp add: spec_flag_names_def)

lemma distinct_spec_candidates:
  "distinct tags \<Longrightarrow> list_all (\<lambda>t. length t = 3) tags \<Longrightarrow> distinct (spec_candidates tags)"
proof (induction tags)
  case Nil
  show ?case by (simp add: spec_candidates_def)
next
  case (Cons t ts)
  have d: "distinct (spec_candidates ts)"
    using Cons by simp
  have "set (spec_flag_names t) \<inter> set (spec_candidates ts) = {}"
  proof (rule ccontr)
    assume "set (spec_flag_names t) \<inter> set (spec_candidates ts) \<noteq> {}"
    then obtain n where n: "n \<in> set (spec_flag_names t)" "n \<in> set (spec_candidates ts)"
      by blast
    from n(1) obtain s where s: "n = t @ s"
      by (auto simp: spec_flag_names_def)
    from spec_candidates_mem [OF n(2)] obtain t' s' where t': "t' \<in> set ts" "n = t' @ s'"
      by blast
    from Cons.prems(2) t'(1) have "length t' = length t"
      by (simp add: list_all_iff)
    with s t'(2) have "t' = t"
      by simp
    with t'(1) Cons.prems(1) show False
      by simp
  qed
  with d distinct_spec_flag_names [of t] show ?case
    by (simp add: spec_candidates_def)
qed

text \<open>
  Claim C1 says that, for every identifier list, one absent required file gives a
  missing-list of length 1. With a repeated identifier every candidate is checked once per
  occurrence, so the file is listed once per occurrence: in the folder below only
  \<^verbatim>\<open>USA_monarchy.tga\<close> is absent, and for the tags \<^verbatim>\<open>USA, USA\<close> the missing-list has it twice.
\<close>

theorem validate_flags_repeated_identifier:
  "\<not> is_regular flags_folder (join ''d'' ''USA_monarchy.tga'')
   \<and> list_all (\<lambda>n. is_regular flags_folder (join ''d'' n))
        (filter (\<lambda>n. n \<noteq> ''USA_monarchy.tga'') (spec_candidates [''USA'', ''USA'']))
   \<and> fst (validate_flags ''d'' [''USA'', ''USA''] False flags_folder) =
        [''USA_monarchy.tga'', ''USA_monarchy.tga'']
   \<and> length (fst (validate_flags ''d'' [''USA'', ''USA''] False flags_folder)) = 2"
  by (simp add: validate_flags_fst spec_candidates_def spec_flag_names_def flags_folder_regular
      join_def startswith_def endswith_def)

text \<open>
  Claim C1, amended. \<^verbatim>\<open>validate_flags\<close> returns exactly the candidate filenames (the five
  suffixes applied to each identifier, in order, one candidate per identifier of the list
  and suffix) that are not regular files in the folder. When all of the \<open>5 \<times> N\<close> candidates
  are regular files the result is empty. When exactly one of the \<open>5 \<times> N\<close> candidates is
  not, the result is the one-element list of that name. When exactly one required file is
  absent, the result holds that name and nothing else, once for each time the name occurs
  among the candidates: it is the one-element list where the candidates are distinct, as
  they are for distinct identifiers of three characters.
\<close>

theorem validate_flags_missing:
  "fst (validate_flags folder_path tags auto_fix w) =
     filter (\<lambda>n. \<not> is_regular w (join folder_path n)) (spec_candidates tags)
   \<and> (list_all (\<lambda>n. is_regular w (join folder_path n)) (spec_candidates tags) \<longrightarrow>
        fst (validate_flags folder_path tags auto_fix w) = [])
   \<and> (\<forall>before name after.
        spec_candidates tags = before @ name # after
        \<and> \<not> is_regular w (join folder_path name)
        \<and> list_all (\<lambda>n. is_regular w (join folder_path n)) (before @ after) \<longrightarrow>
        fst (validate_flags folder_path tags auto_fix w) = [name])
   \<and> (\<forall>name.
        name \<in> set (spec_candidates tags)
        \<and> \<not> is_regular w (join folder_path name)
        \<and> list_all (\<lambda>n. is_regular w (join folder_path n))
             (filter (\<lambda>n. n \<noteq> name) (spec_candidates tags)) \<longrightarrow>
        fst (validate_flags folder_path tags auto_fix w) =
          replicate (count_list (spec_candidates tags) name) name
        \<and> (distinct (spec_candidates tags) \<longrightarrow>
             fst (validate_flags folder_path tags auto_fix w) = [name]))
   \<and> (distinct tags \<and> list_all (\<lambda>tag. length tag = 3) tags \<longrightarrow>
        distinct (spec_candidates tags))"
proof (intro conjI allI impI)
  show "fst (validate_flags folder_path tags auto_fix w) =
     filter (\<lambda>n. \<not> is_regular w (join folder_path n)) (spec_candidates tags)"
    by (rule validate_flags_fst)
next
  assume "list_all (\<lambda>n. is_regular w (join folder_path n)) (spec_candidates tags)"
  then show "fst (validate_flags folder_path tags auto_fix w) = []"
    by (simp add: validate_flags_fst list_all_iff)
next
  fix before name after
  assume "spec_candidates tags = before @ name # after
        \<and> \<not> is_regular w (join folder_path name)
        \<and> list_all (\<lambda>n. is_regular w (join folder_path n)) (before @ after)"
  then show "fst (validate_flags folder_path tags auto_fix w) = [name]"
    by (simp add: validate_flags_fst list_all_iff)
next
  fix name
  assume h: "name \<in> set (spec_candidates tags)
        \<and> \<not> is_regular w (join folder_path name)
        \<and> list_all (\<lambda>n. is_regular w (join folder_path n))
             (filter (\<lambda>n. n \<noteq> name) (spec_candidates tags))"
  then have "filter (\<lambda>n. \<not> is_regular w (join folder_path n)) (spec_candidates tags) =
      filter (\<lambda>n. n = name) (spec_candidates tags)"
    by (intro filter_cong) (auto simp: list_all_iff)
  then show r: "fst (validate_flags folder_path tags auto_fix w) =
          replicate (count_list (spec_candidates tags) name) name"
    by (simp add: validate_flags_fst filter_eq_replicate)
  assume "distinct (spec_candidates tags)"
  with h have "count_list (spec_candidates tags) name = 1"
    by (simp add: count_list_distinct)
  with r show "fst (validate_flags folder_path tags auto_fix w) = [name]"
    by simp
next
  assume "distinct tags \<and> list_all (\<lambda>tag. length tag = 3) tags"
  then show "distinct (spec_candidates tags)"
    by (simp add: distinct_spec_candidates)
qed

theorem validate_flags_missing_witness:
  "''USA_monarchy.tga'' \<in> set (spec_candidates [''USA'', ''USA''])
   \<and> \<not> is_regular flags_folder (join ''d'' ''USA_monarchy.tga'')
   \<and> list_all (\<lambda>n. is_regular flags_folder (join ''d'' n))
        (filter (\<lambda>n. n \<noteq> ''USA_monarchy.tga'') (spec_candidates [''USA'', ''USA'']))
   \<and> count_list (spec_candidates [''USA'', ''USA'']) ''USA_monarchy.tga'' = 2
   \<and> fst (validate_flags ''d'' [''USA'', ''USA''] False flags_folder) =
        replicate 2 ''USA_monarchy.tga''
   \<and> distinct [''GHO'', ''USA''] \<and> list_all (\<lambda>tag. length tag = 3) [''GHO'', ''USA'']
   \<and> distinct (spec_candidates [''GHO'', ''USA''])
   \<and> ''USA_monarchy.tga'' \<in> set (spec_candidates [''GHO'', ''USA''])
   \<and> list_all (\<lambda>n. is_regular flags_folder (join ''d'' n))
        (filter (\<lambda>n. n \<noteq> ''USA_monarchy.tga'') (spec_candidates [''GHO'', ''USA'']))
   \<and> fst (validate_flags ''d'' [''GHO'', ''USA''] False flags_folder) = [''USA_monarchy.tga'']
   \<and> spec_candidates [''USA''] =
        [''USA.tga'', ''USA_fascist.tga'', ''USA_communist.tga'']
          @ ''USA_monarchy.tga'' # [''USA_republic.tga'']
   \<and> list_all (\<lambda>n. is_regular flags_folder (join ''d'' n))
        ([''USA.tga'', ''USA_fascist.tga'', ''USA_communist.tga''] @ [''USA_republic.tga''])
   \<and> fst (validate_flags ''d'' [''USA''] False flags_folder) = [''USA_monarchy.tga'']
   \<and> list_all (\<lambda>n. is_regular flags_folder (join ''d'' n)) (spec_candidates [''GHO''])
   \<and> fst (validate_flags ''d'' [''GHO''] False flags_folder) = []"
proof -
  have a: "\<not> is_regular flags_folder (join ''d'' ''USA_monarchy.tga'')"
    by (simp add: flags_folder_regular join_def startswith_def endswith_def)
  have m2: "''USA_monarchy.tga'' \<in> set (spec_candidates [''USA'', ''USA''])"
    by (simp add: spec_candidates_def spec_flag_names_def)
  have o2: "list_all (\<lambda>n. is_regular flags_folder (join ''d'' n))
        (filter (\<lambda>n. n \<noteq> ''USA_monarchy.tga'') (spec_candidates [''USA'', ''USA'']))"
    by (simp add: spec_candidates_def spec_flag_names_def flags_folder_regular join_def
        startswith_def endswith_def)
  have c2: "count_list (spec_candidates [''USA'', ''USA'']) ''USA_monarchy.tga'' = 2"
    by (simp add: spec_candidates_def spec_flag_names_def)
  have t: "distinct [''GHO'', ''USA''] \<and> list_all (\<lambda>tag. length tag = 3) [''GHO'', ''USA'']"
    by simp
  have mg: "''USA_monarchy.tga'' \<in> set (spec_candidates [''GHO'', ''USA''])"
    by (simp add: spec_candidates_def spec_flag_names_def)
  have og: "list_all (\<lambda>n. is_regular flags_folder (join ''d'' n))
        (filter (\<lambda>n. n \<noteq> ''USA_monarchy.tga'') (spec_candidates [''GHO'', ''USA'']))"
    by (simp add: spec_candidates_def spec_flag_names_def flags_folder_regular join_def
        startswith_def endswith_def)
  have c: "spec_candidates [''USA''] =
     [''USA.tga'', ''USA_fascist.tga'', ''USA_communist.tga'']
       @ ''USA_monarchy.tga'' # [''USA_republic.tga'']"
    by (simp add: spec_candidates_def spec_flag_names_def)
  have p: "list_all (\<lambda>n. is_regular flags_folder (join ''d'' n))
        ([''USA.tga'', ''USA_fascist.tga'', ''USA_communist.tga''] @ [''USA_republic.tga''])"
    by (simp add: flags_folder_regular join_def startswith_def endswith_def)
  have g: "list_all (\<lambda>n. is_regular flags_folder (join ''d'' n)) (spec_candidates [''GHO''])"
    by (simp add: spec_candidates_def spec_flag_names_def flags_folder_regular join_def
        startswith_def endswith_def)
  note u2 = validate_flags_missing [of "''d''" "[''USA'', ''USA'']" False flags_folder]
  note ug = validate_flags_missing [of "''d''" "[''GHO'', ''USA'']" False flags_folder]
  note u1 = validate_flags_missing [of "''d''" "[''USA'']" False flags_folder]
  note u0 = validate_flags_missing [of "''d''" "[''GHO'']" False flags_folder]
  have r2: "fst (validate_flags ''d'' [''USA'', ''USA''] False flags_folder) =
        replicate 2 ''USA_monarchy.tga''"
    using u2 m2 a o2 c2 by metis
  have dg: "distinct (spec_candidates [''GHO'', ''USA''])"
    using ug t by blast
  have rg: "fst (validate_flags ''d'' [''GHO'', ''USA''] False flags_folder) = [''USA_monarchy.tga'']"
    using ug mg a og dg by blast
  have r1: "fst (validate_flags ''d'' [''USA''] False flags_folder) = [''USA_monarchy.tga'']"
    using u1 c a p by blast
  have r0: "fst (validate_flags ''d'' [''GHO''] False flags_folder) = []"
    using u0 g by blast
  from a m2 o2 c2 r2 t dg mg og rg c p r1 g r0 show ?thesis
    by blast
qed

lemma length_spec_candidates: "length (spec_candidates tags) = 5 * length tags"
  by (induction tags) (simp_all add: spec_candidates_def spec_flag_names_def)

lemma filter_spec_candidates:
  "filter P (spec_candidates tags) = concat (map (\<lambda>tag. filter P (spec_flag_names tag)) tags)"
  by (simp add: spec_candidates_def filter_concat comp_def)

text \<open>
  Claim C3. For \<open>N\<close> identifiers \<^verbatim>\<open>validate_flags\<close> makes exactly \<open>5 \<times> N\<close> existence checks,
  one per candidate filename, identifier by identifier and, within an identifier, in the
  order base, fascist, communist, monarchy, republic; and the missing-list it returns is
  the concatenation, identifier by identifier, of the missing variants of that identifier.
\<close>

theorem validate_flags_checks:
  "calls (snd (validate_flags folder_path tags auto_fix w)) =
     calls w @ map (probe folder_path w) (concat (map spec_flag_names tags))
   \<and> length (calls (snd (validate_flags folder_path tags auto_fix w))) =
       length (calls w) + 5 * length tags
   \<and> fst (validate_flags folder_path tags auto_fix w) =
       concat (map (\<lambda>tag. filter (\<lambda>n. \<not> is_regular w (join folder_path n))
                             (spec_flag_names tag)) tags)"
proof (intro conjI)
  show "calls (snd (validate_flags folder_path tags auto_fix w)) =
     calls w @ map (probe folder_path w) (concat (map spec_flag_names tags))"
    by (simp add: validate_flags_eq Let_def spec_candidates_def)
  show "length (calls (snd (validate_flags folder_path tags auto_fix w))) =
       length (calls w) + 5 * length tags"
    by (simp add: validate_flags_eq Let_def length_spec_candidates)
  show "fst (validate_flags folder_path tags auto_fix w) =
       concat (map (\<lambda>tag. filter (\<lambda>n. \<not> is_regular w (join folder_path n))
                             (spec_flag_names tag)) tags)"
    by (simp add: validate_flags_fst filter_spec_candidates)
qed

theorem validate_flags_checks_witness:
  "calls (snd (validate_flags ''d'' [''GHO'', ''USA''] False flags_folder)) =
     [IsFile ''d/GHO.tga'' True, IsFile ''d/GHO_fascist.tga'' True,
      IsFile ''d/GHO_communist.tga'' True, IsFile ''d/GHO_monarchy.tga'' True,
      IsFile ''d/GHO_republic.tga'' True,
      IsFile ''d/USA.tga'' True, IsFile ''d/USA_fascist.tga'' True,
      IsFile ''d/USA_communist.tga'' True, IsFile ''d/USA_monarchy.tga'' False,
      IsFile ''d/USA_republic.tga'' True]"
proof -
  have "calls flags_folder = []"
    by (simp add: flags_folder_def)
  then show ?thesis
    using validate_flags_checks [of "''d''" "[''GHO'', ''USA'']" False flags_folder]
    by (simp add: spec_flag_names_def probe_def flags_folder_regular join_def startswith_def
        endswith_def)
qed

text \<open>
  Claim C9. \<^verbatim>\<open>validate_flags\<close> leaves every file as it was: the world after the call is the
  world before it with only the log of existence checks and the printed output extended,
  and the output is either the \<^verbatim>\<open>all present\<close> line or the itemised list of missing names.
\<close>

theorem validate_flags_no_mutation:
  "files (snd (validate_flags folder_path tags auto_fix w)) = files w
   \<and> (\<exists>checks out.
         snd (validate_flags folder_path tags auto_fix w) =
           w\<lparr>calls := calls w @ checks, stdout := stdout w @ out\<rparr>
         \<and> out =
             (if fst (validate_flags folder_path tags auto_fix w) = []
              then [Line ''All required flag files are present!'']
              else Line ''The following flag files are missing:''
                   # map missing_line (fst (validate_flags folder_path tags auto_fix w))
                   @ [Line (LF # ''Please review the missing files and add them to the folder.'')]))"
proof -
  let ?m = "filter (\<lambda>n. \<not> is_regular w (join folder_path n)) (spec_candidates tags)"
  let ?out = "if ?m = [] then [Line ''All required flag files are present!'']
              else Line ''The following flag files are missing:'' # map missing_line ?m
                   @ [Line (LF # ''Please review the missing files and add them to the folder.'')]"
  have v: "validate_flags folder_path tags auto_fix w =
             (?m, w\<lparr>calls := calls w @ map (probe folder_path w) (spec_candidates tags),
                     stdout := stdout w @ ?out\<rparr>)"
    by (simp add: validate_flags_eq Let_def)
  have "files (snd (validate_flags folder_path tags auto_fix w)) = files w"
    by (simp add: v)
  moreover have "snd (validate_flags folder_path tags auto_fix w) =
           w\<lparr>calls := calls w @ map (probe folder_path w) (spec_candidates tags),
             stdout := stdout w @ ?out\<rparr>
         \<and> ?out =
             (if fst (validate_flags folder_path tags auto_fix w) = []
              then [Line ''All required flag files are present!'']
              else Line ''The following flag files are missing:''
                   # map missing_line (fst (validate_flags folder_path tags auto_fix w))
                   @ [Line (LF # ''Please review the missing files and add them to the folder.'')])"
    by (simp add: v)
  ultimately show ?thesis
    by blast
qed

theorem validate_flags_no_mutation_witness:
  "files (snd (validate_flags ''d'' [''USA''] False flags_folder)) = files flags_folder"
  using validate_flags_no_mutation [of "''d''" "[''USA'']" False flags_folder]
  by simp

text \<open>
  Claim C10. Two calls of \<^verbatim>\<open>validate_flags\<close> that differ only in \<^verbatim>\<open>auto_fix\<close> return the same
  missing-list and leave the same world: the parameter is never read.
\<close>

theorem validate_flags_auto_fix_unread:
  "validate_flags folder_path tags True w = validate_flags folder_path tags False w"
  by (simp add: validate_flags_def)

theorem validate_flags_auto_fix_unread_witness:
  "validate_flags ''d'' [''USA''] True flags_folder = validate_flags ''d'' [''USA''] False flags_folder"
  using validate_flags_auto_fix_unread [of "''d''" "[''USA'']" flags_folder]
  by simp

section \<open>Properties of \<^verbatim>\<open>create_missing_flags\<close>\<close>

lemma calls_print [simp]: "calls (print x w) = calls w"
  by (simp add: print_def)

lemma files_print [simp]: "files (print x w) = files w"
  by (simp add: print_def)



text \<open>
  Claim C4. When the template \<^verbatim>\<open>GHO.tga\<close> is not a regular file of the folder (it does not
  exist, or the name is a directory), \<^verbatim>\<open>create_missing_flags\<close> returns \<^verbatim>\<open>False\<close> at once,
  whatever the missing-list: it has made the one existence check and printed the diagnostic,
  no copy was attempted and every file is as it was.
\<close>

theorem create_missing_flags_without_template:
  "\<not> is_regular w (join folder_path ''GHO.tga'') \<Longrightarrow>
     create_missing_flags folder_path missing_flags w =
       (False,
        w\<lparr>calls := calls w @ [IsFile (join folder_path ''GHO.tga'') False],
          stdout := stdout w @ [template_missing_line (join folder_path ''GHO.tga'')]\<rparr>)
     \<and> files (snd (create_missing_flags folder_path missing_flags w)) = files w"
  by (simp add: create_missing_flags_def isfile_def Let_def print_def template_missing_line_def)


text \<open>The definitions that evaluate the filesystem operations on a concrete world.\<close>

lemmas world_eval =
  create_missing_flags_def isfile_def copy2_def copyfile_def join_def basename_def
  startswith_def endswith_def is_regular_def is_dir_def Let_def print_def print_all_def

theorem create_missing_flags_without_template_witness:
  "\<not> is_regular no_template (join ''d'' ''GHO.tga'')
   \<and> fst (create_missing_flags ''d'' [''USA_fascist.tga'', ''USA_monarchy.tga''] no_template) = False
   \<and> calls (snd (create_missing_flags ''d'' [''USA_fascist.tga'', ''USA_monarchy.tga''] no_template))
        = [IsFile ''d/GHO.tga'' False]
   \<and> files (snd (create_missing_flags ''d'' [''USA_fascist.tga'', ''USA_monarchy.tga''] no_template))
        = files no_template"
proof -
  have h: "\<not> is_regular no_template (join ''d'' ''GHO.tga'')"
    by (simp add: no_template_def is_regular_def join_def startswith_def endswith_def)
  have j: "join ''d'' ''GHO.tga'' = ''d/GHO.tga''"
    by (simp add: join_def startswith_def endswith_def)
  have c: "calls no_template = []"
    by (simp add: no_template_def)
  show ?thesis
    using create_missing_flags_without_template
      [OF h, of "[''USA_fascist.tga'', ''USA_monarchy.tga'']"] h j c
    by simp
qed


text \<open>
  Claim C5 says that after a successful \<^verbatim>\<open>create_missing_flags\<close> on the missing-list of a
  \<^verbatim>\<open>validate_flags\<close> pass, a second pass over the same tags returns the empty list. The
  code does not do so when a candidate name is a directory: in the folder below
  \<^verbatim>\<open>d/USA.tga\<close> is a directory, so the first pass lists all five flags of \<^verbatim>\<open>USA\<close>;
  \<^verbatim>\<open>shutil.copy2\<close> then puts the copy for \<^verbatim>\<open>USA.tga\<close> inside that directory, as
  \<^verbatim>\<open>d/USA.tga/GHO.tga\<close>, and raises nothing; \<^verbatim>\<open>create_missing_flags\<close> returns \<^verbatim>\<open>True\<close>, and
  the second pass still lists \<^verbatim>\<open>USA.tga\<close>.
\<close>

theorem create_missing_flags_true_with_directory:
  "fst (validate_flags ''d'' [''USA''] False directory_in_the_way) =
     [''USA.tga'', ''USA_fascist.tga'', ''USA_communist.tga'', ''USA_monarchy.tga'',
      ''USA_republic.tga'']
   \<and> fst (create_missing_flags ''d''
            (fst (validate_flags ''d'' [''USA''] False directory_in_the_way))
            (snd (validate_flags ''d'' [''USA''] False directory_in_the_way))) = True
   \<and> fst (validate_flags ''d'' [''USA''] False
            (snd (create_missing_flags ''d''
               (fst (validate_flags ''d'' [''USA''] False directory_in_the_way))
               (snd (validate_flags ''d'' [''USA''] False directory_in_the_way))))) =
       [''USA.tga'']
   \<and> files (snd (create_missing_flags ''d''
               (fst (validate_flags ''d'' [''USA''] False directory_in_the_way))
               (snd (validate_flags ''d'' [''USA''] False directory_in_the_way))))
         ''d/USA.tga/GHO.tga'' = Some (File image)"
  by (simp add: validate_flags_eq spec_candidates_def spec_flag_names_def world_eval
      directory_in_the_way_def)

lemma is_dir_calls [simp]: "is_dir (w\<lparr>calls := cs\<rparr>) p = is_dir w p"
  by (simp add: is_dir_def)

lemma is_dir_stdout [simp]: "is_dir (w\<lparr>stdout := out\<rparr>) p = is_dir w p"
  by (simp add: is_dir_def)

lemma copyfile_Inr:
  "copyfile src dst w = Inr w' \<Longrightarrow>
     \<not> is_dir w dst \<and> (\<exists>c. w' = w\<lparr>files := (files w)(dst \<mapsto> File c)\<rparr>)"
  by (auto simp: copyfile_def split: if_splits option.splits node.splits)

lemma copy2_keeps:
  assumes "copy2 src dst w = (res, w')"
  shows "is_regular w p \<Longrightarrow> is_regular w' p"
    and "is_dir w' p = is_dir w p"
    and "res = Inr x \<Longrightarrow> \<not> is_dir w dst \<Longrightarrow> is_regular w' dst"
  using assms
  by (auto simp: copy2_def Let_def is_regular_def is_dir_def
      split: sum.splits if_splits dest!: copyfile_Inr)

lemma copy_flags_keeps:
  assumes "copy_flags folder_path t ms (ok, created, w) = (ok', created', w')"
  shows "(is_regular w p \<longrightarrow> is_regular w' p) \<and> is_dir w' p = is_dir w p"
  using assms
proof (induction ms arbitrary: ok created w)
  case Nil
  then show ?case by simp
next
  case (Cons m ms)
  obtain res w1 where c: "copy2 t (join folder_path m) w = (res, w1)"
    by (cases "copy2 t (join folder_path m) w") auto
  note k = copy2_keeps(1,2) [OF c, of p]
  show ?case
  proof (cases res)
    case (Inl e)
    with Cons.prems c have "copy_flags folder_path t ms
        (False, created, print (ErrorLine (''Error creating '' @ m @ '': '') e) w1) = (ok', created', w')"
      by simp
    from Cons.IH [OF this] k show ?thesis
      by (simp add: print_def)
  next
    case (Inr x)
    with Cons.prems c have "copy_flags folder_path t ms (ok, created @ [m], w1) = (ok', created', w')"
      by simp
    from Cons.IH [OF this] k show ?thesis
      by simp
  qed
qed

lemma copy_flags_fst: "fst (copy_flags folder_path t ms (ok, created, w)) \<Longrightarrow> ok"
proof (induction ms arbitrary: ok created w)
  case Nil
  then show ?case by simp
next
  case (Cons m ms)
  obtain res w1 where c: "copy2 t (join folder_path m) w = (res, w1)"
    by (cases "copy2 t (join folder_path m) w") auto
  show ?case
  proof (cases res)
    case (Inl e)
    with Cons.prems c have "fst (copy_flags folder_path t ms
        (False, created, print (ErrorLine (''Error creating '' @ m @ '': '') e) w1))"
      by simp
    from Cons.IH [OF this] show ?thesis
      by simp
  next
    case (Inr x)
    with Cons.prems c have "fst (copy_flags folder_path t ms (ok, created @ [m], w1))"
      by simp
    from Cons.IH [OF this] show ?thesis .
  qed
qed

lemma copy_flags_ok:
  assumes "copy_flags folder_path t ms (ok, created, w) = (ok', created', w')"
  shows "ok' \<Longrightarrow> ok"
  using assms copy_flags_fst [of folder_path t ms ok created w] by simp

lemma copy_flags_created:
  assumes "copy_flags folder_path t ms (ok, created, w) = (True, created', w')"
    and "n \<in> set ms" and "\<not> is_dir w (join folder_path n)"
  shows "is_regular w' (join folder_path n)"
  using assms
proof (induction ms arbitrary: ok created w)
  case Nil
  then show ?case by simp
next
  case (Cons m ms)
  obtain res w1 where c: "copy2 t (join folder_path m) w = (res, w1)"
    by (cases "copy2 t (join folder_path m) w") auto
  show ?case
  proof (cases res)
    case (Inl e)
    with Cons.prems(1) c have "copy_flags folder_path t ms
        (False, created, print (ErrorLine (''Error creating '' @ m @ '': '') e) w1) = (True, created', w')"
      by simp
    from copy_flags_ok [OF this] show ?thesis
      by simp
  next
    case (Inr x)
    with Cons.prems(1) c have r: "copy_flags folder_path t ms (ok, created @ [m], w1) = (True, created', w')"
      by simp
    show ?thesis
    proof (cases "n = m")
      case True
      with copy2_keeps(3) [OF c Inr] Cons.prems(3) have "is_regular w1 (join folder_path n)"
        by simp
      with copy_flags_keeps [OF r, of "join folder_path n"] show ?thesis
        by simp
    next
      case False
      with Cons.prems(2) have "n \<in> set ms"
        by simp
      moreover from copy2_keeps(2) [OF c] Cons.prems(3) have "\<not> is_dir w1 (join folder_path n)"
        by simp
      ultimately show ?thesis
        using Cons.IH [OF r] by simp
    qed
  qed
qed

lemma create_missing_flags_keeps:
  assumes "create_missing_flags folder_path ms w = (ok, w')"
  shows "is_regular w p \<Longrightarrow> is_regular w' p"
proof -
  assume p: "is_regular w p"
  let ?t = "join folder_path ''GHO.tga''"
  let ?w1 = "w\<lparr>calls := calls w @ [IsFile ?t (is_regular w ?t)]\<rparr>"
  show ?thesis
  proof (cases "is_regular w ?t")
    case False
    with assms p show ?thesis
      by (auto simp: create_missing_flags_def isfile_def Let_def print_def)
  next
    case True
    obtain ok2 created w2 where c: "copy_flags folder_path ?t ms (True, [], ?w1) = (ok2, created, w2)"
      by (cases "copy_flags folder_path ?t ms (True, [], ?w1)") auto
    from copy_flags_keeps [OF c, of p] p have "is_regular w2 p"
      by simp
    with assms True c show ?thesis
      by (auto simp: create_missing_flags_def isfile_def Let_def print_all_eq print_def
          split: if_splits)
  qed
qed

lemma create_missing_flags_created:
  assumes "create_missing_flags folder_path ms w = (True, w')"
    and "n \<in> set ms" and "\<not> is_dir w (join folder_path n)"
  shows "is_regular w' (join folder_path n)"
proof -
  let ?t = "join folder_path ''GHO.tga''"
  let ?w1 = "w\<lparr>calls := calls w @ [IsFile ?t (is_regular w ?t)]\<rparr>"
  from assms(1) have t: "is_regular w ?t"
    by (auto simp: create_missing_flags_def isfile_def Let_def split: if_splits)
  obtain ok2 created w2 where c: "copy_flags folder_path ?t ms (True, [], ?w1) = (ok2, created, w2)"
    by (cases "copy_flags folder_path ?t ms (True, [], ?w1)") auto
  with assms(1) t have "ok2" and w': "is_regular w' (join folder_path n) = is_regular w2 (join folder_path n)"
    by (auto simp: create_missing_flags_def isfile_def Let_def print_all_eq print_def
        split: if_splits)
  with c have "copy_flags folder_path ?t ms (True, [], ?w1) = (True, created, w2)"
    by simp
  from copy_flags_created [OF this assms(2)] assms(3) w' show ?thesis
    by simp
qed

text \<open>
  Where no candidate name is a directory, the second pass is empty after a successful
  \<^verbatim>\<open>create_missing_flags\<close>: a copy that does not raise leaves a regular file at its
  destination, and no copy removes a file or makes a directory.
\<close>

lemma revalidation_empty_without_directories:
  assumes "list_all (\<lambda>n. \<not> is_dir w (join folder_path n)) (spec_candidates tags)"
    and "validate_flags folder_path tags auto_fix w = (missing_flags, w1)"
    and "create_missing_flags folder_path missing_flags w1 = (True, w2)"
  shows "fst (validate_flags folder_path tags auto_fix' w2) = []"
proof -
  from assms(2) have m: "missing_flags =
      filter (\<lambda>n. \<not> is_regular w (join folder_path n)) (spec_candidates tags)"
    and r: "\<And>p. is_regular w1 p = is_regular w p" and d: "\<And>p. is_dir w1 p = is_dir w p"
    by (auto simp: validate_flags_eq Let_def)
  have "is_regular w2 (join folder_path n)" if n: "n \<in> set (spec_candidates tags)" for n
  proof (cases "is_regular w (join folder_path n)")
    case True
    with r have "is_regular w1 (join folder_path n)"
      by simp
    with create_missing_flags_keeps [OF assms(3)] show ?thesis
      by simp
  next
    case False
    with n m have "n \<in> set missing_flags"
      by simp
    moreover from assms(1) n d have "\<not> is_dir w1 (join folder_path n)"
      by (simp add: list_all_iff)
    ultimately show ?thesis
      using create_missing_flags_created [OF assms(3)] by simp
  qed
  then show ?thesis
    by (simp add: validate_flags_fst)
qed

section \<open>Properties of \<^verbatim>\<open>read_tags_from_file\<close>\<close>

lemma scan_line_append: "scan_line raw tags = tags @ scan_line raw []"
  by (simp add: scan_line_def Let_def split: option.splits)

lemma scan_lines_Inr:
  "scan_lines (map Inr ls) tags = Inr (tags @ concat (map (\<lambda>raw. scan_line raw []) ls))"
proof (induction ls arbitrary: tags)
  case Nil
  show ?case by simp
next
  case (Cons l ls)
  show ?case
    using scan_line_append [of l tags] by (simp add: Cons.IH)
qed

lemma scan_lines_Inl:
  "scan_lines (map Inr ls @ Inl e # rest) tags = Inl e"
  by (induction ls arbitrary: tags) simp_all

lemma read_tags_from_file_Utf8:
  assumes "files w p = Some (File (Utf8 t))" and "read_refused w p = None"
  shows "read_tags_from_file p w = (concat (map (\<lambda>raw. scan_line raw []) (readlines t)), w)"
  using assms by (simp add: read_tags_from_file_def open_read_def scan_lines_Inr)

lemma not_space_tag_char: "tag_char c \<Longrightarrow> \<not> isspace c"
  by (auto simp: tag_char_def isspace_def Let_def)

lemma tag_char_not_hash: "tag_char c \<Longrightarrow> c \<noteq> CHR ''#''"
  by (auto simp: tag_char_def Let_def)

lemma equals_not_space: "\<not> isspace CHR ''=''"
  by (simp add: isspace_def)

lemma scan_line_three:
  assumes "strip raw = tag @ ws @ ''='' @ rest" and "length tag = 3"
    and "list_all tag_char tag" and "list_all isspace ws"
  shows "scan_line raw tags = tags @ [tag]"
proof -
  from assms(2) obtain a b c where tag: "tag = [a, b, c]"
    by (auto simp: length_Suc_conv eval_nat_numeral)
  with assms(3) have "tag_char a"
    by simp
  then have a: "a \<noteq> CHR ''#''"
    by (rule tag_char_not_hash)
  have d: "dropWhile isspace (ws @ ''='' @ rest) = ''='' @ rest"
    using assms(4) by (simp add: dropWhile_append3 list_all_iff equals_not_space)
  have "tag_match (strip raw) = Some tag"
    using assms(3) d by (simp add: tag_match_def assms(1) tag startswith_def Let_def)
  then show ?thesis
    using a by (simp add: scan_line_def Let_def assms(1) tag startswith_def)
qed

text \<open>The definitions that evaluate the line scanner on a concrete text.\<close>

lemmas text_eval =
  scan_line_def strip_def isspace_def tag_match_def tag_char_def startswith_def Let_def
  LF_def CR_def

text \<open>
  Claim C2 says that one to three characters of \<^verbatim>\<open>[A-Z0-9]\<close> before the \<^verbatim>\<open>=\<close> make an
  identifier, so that \<^verbatim>\<open>AB = x\<close> yields \<^verbatim>\<open>AB\<close>. The pattern of the code asks for exactly
  three: the line \<^verbatim>\<open>AB = x\<close> yields nothing.
\<close>

theorem read_tags_two_characters:
  "strip (''AB = x'' @ [LF]) = ''AB'' @ '' '' @ ''='' @ '' x''
   \<and> list_all tag_char ''AB'' \<and> list_all isspace '' ''
   \<and> files tag_files ''short.txt'' = Some (File (Utf8 (''AB = x'' @ [LF])))
   \<and> readlines (''AB = x'' @ [LF]) = [''AB = x'' @ [LF]]
   \<and> scan_line (''AB = x'' @ [LF]) [] = []
   \<and> fst (read_tags_from_file ''short.txt'' tag_files) = []"
  by (simp add: text_eval tag_files_def read_tags_from_file_def open_read_def)

text \<open>
  Claim C2, amended. For every line of a readable, decodable tag file that, after trimming,
  starts with exactly three characters of \<^verbatim>\<open>[A-Z0-9]\<close> followed by optional whitespace and
  \<^verbatim>\<open>=\<close>, the loop body appends these three characters to \<^verbatim>\<open>tags\<close>, and the result of
  \<^verbatim>\<open>read_tags_from_file\<close> has them between the identifiers of the lines before and those of
  the lines after.
\<close>

theorem read_tags_three_characters:
  assumes "files w p = Some (File (Utf8 t))" and "read_refused w p = None"
    and "readlines t = before @ raw # after"
    and "strip raw = tag @ ws @ ''='' @ rest"
    and "length tag = 3" and "list_all tag_char tag" and "list_all isspace ws"
  shows "scan_line raw tags = tags @ [tag]
    \<and> fst (read_tags_from_file p w) =
        concat (map (\<lambda>l. scan_line l []) before) @ tag
          # concat (map (\<lambda>l. scan_line l []) after)"
proof -
  have l: "scan_line raw ts = ts @ [tag]" for ts
    using assms(4-7) by (rule scan_line_three)
  then show ?thesis
    using read_tags_from_file_Utf8 [OF assms(1,2)] l [of "[]"] by (simp add: assms(3))
qed

theorem read_tags_three_characters_witness:
  "files tag_files ''countries.txt'' =
     Some (File (Utf8 (''# ABC = x'' @ [LF] @ [LF] @ ''ABC = description'' @ [CR, LF]
                      @ ''  USA   = United States'' @ [LF] @ ''ABC = description'')))
   \<and> read_refused tag_files ''countries.txt'' = None
   \<and> readlines (''# ABC = x'' @ [LF] @ [LF] @ ''ABC = description'' @ [CR, LF]
                  @ ''  USA   = United States'' @ [LF] @ ''ABC = description'') =
       [''# ABC = x'' @ [LF], [LF], ''ABC = description'' @ [LF]]
         @ (''  USA   = United States'' @ [LF]) # [''ABC = description'']
   \<and> strip (''  USA   = United States'' @ [LF]) = ''USA'' @ ''   '' @ ''='' @ '' United States''
   \<and> length ''USA'' = 3 \<and> list_all tag_char ''USA'' \<and> list_all isspace ''   ''
   \<and> fst (read_tags_from_file ''countries.txt'' tag_files) = [''ABC'', ''USA'', ''ABC'']"
proof -
  have f: "files tag_files ''countries.txt'' =
     Some (File (Utf8 (''# ABC = x'' @ [LF] @ [LF] @ ''ABC = description'' @ [CR, LF]
                      @ ''  USA   = United States'' @ [LF] @ ''ABC = description'')))"
    by (simp add: tag_files_def)
  have r: "read_refused tag_files ''countries.txt'' = None"
    by (simp add: tag_files_def)
  have ls: "readlines (''# ABC = x'' @ [LF] @ [LF] @ ''ABC = description'' @ [CR, LF]
                  @ ''  USA   = United States'' @ [LF] @ ''ABC = description'') =
       [''# ABC = x'' @ [LF], [LF], ''ABC = description'' @ [LF]]
         @ (''  USA   = United States'' @ [LF]) # [''ABC = description'']"
    by (simp add: LF_def CR_def startswith_def)
  have st: "strip (''  USA   = United States'' @ [LF]) = ''USA'' @ ''   '' @ ''='' @ '' United States''"
    by (simp add: strip_def isspace_def LF_def)
  have c: "length ''USA'' = 3 \<and> list_all tag_char ''USA'' \<and> list_all isspace ''   ''"
    by (simp add: tag_char_def isspace_def)
  have b: "concat (map (\<lambda>l. scan_line l []) [''# ABC = x'' @ [LF], [LF], ''ABC = description'' @ [LF]])
       = [''ABC'']"
    by (simp add: text_eval)
  have a: "concat (map (\<lambda>l. scan_line l []) [''ABC = description'']) = [''ABC'']"
    by (simp add: text_eval)
  from read_tags_three_characters [OF f r ls st, of "[]"] c a b
  have "fst (read_tags_from_file ''countries.txt'' tag_files) = [''ABC'', ''USA'', ''ABC'']"
    by simp
  with f r ls st c show ?thesis
    by blast
qed





text \<open>
  Claim C8. Whenever opening the tag file or reading one of its lines raises an error,
  \<^verbatim>\<open>read_tags_from_file\<close> returns the empty list and has printed the diagnostic with that
  error, and nothing else has changed. This is so for a path that names nothing, for a
  directory, for a file that may not be read, and for a file whose bytes are not UTF-8,
  whatever was matched before the invalid byte.
\<close>

theorem read_tags_error:
  "(\<forall>e. open_read p w = Inl e \<or> (\<exists>file. open_read p w = Inr file \<and> scan_lines file [] = Inl e) \<longrightarrow>
        read_tags_from_file p w = ([], print (error_line e) w))
   \<and> (files w p = None \<longrightarrow>
        read_tags_from_file p w = ([], print (error_line FileNotFoundError) w))
   \<and> (files w p = Some Dir \<longrightarrow>
        read_tags_from_file p w = ([], print (error_line IsADirectoryError) w))
   \<and> (\<forall>c e. files w p = Some (File c) \<and> read_refused w p = Some e \<longrightarrow>
        read_tags_from_file p w = ([], print (error_line e) w))
   \<and> (\<forall>t. files w p = Some (File (Undecodable t)) \<and> read_refused w p = None \<longrightarrow>
        read_tags_from_file p w = ([], print (error_line UnicodeDecodeError) w))"
proof (intro conjI allI impI)
  show "read_tags_from_file p w = ([], print (error_line e) w)"
    if "open_read p w = Inl e \<or> (\<exists>file. open_read p w = Inr file \<and> scan_lines file [] = Inl e)"
    for e
    using that by (auto simp: read_tags_from_file_def error_line_def)
  show "read_tags_from_file p w = ([], print (error_line FileNotFoundError) w)"
    if "files w p = None"
    using that by (simp add: read_tags_from_file_def open_read_def error_line_def)
  show "read_tags_from_file p w = ([], print (error_line IsADirectoryError) w)"
    if "files w p = Some Dir"
    using that by (simp add: read_tags_from_file_def open_read_def error_line_def)
  show "read_tags_from_file p w = ([], print (error_line e) w)"
    if "files w p = Some (File c) \<and> read_refused w p = Some e" for c e
    using that by (simp add: read_tags_from_file_def open_read_def error_line_def)
  show "read_tags_from_file p w = ([], print (error_line UnicodeDecodeError) w)"
    if "files w p = Some (File (Undecodable t)) \<and> read_refused w p = None" for t
    using that scan_lines_Inl [of "readlines t" UnicodeDecodeError "[]" "[]"]
    by (simp add: read_tags_from_file_def open_read_def error_line_def)
qed

theorem read_tags_error_witness:
  "files tag_files ''missing.txt'' = None
   \<and> read_tags_from_file ''missing.txt'' tag_files =
       ([], tag_files\<lparr>stdout := [ErrorLine ''Error reading tags file: '' FileNotFoundError]\<rparr>)
   \<and> files tag_files ''broken.txt'' = Some (File (Undecodable (''GHO = Ghana'' @ [LF])))
   \<and> read_refused tag_files ''broken.txt'' = None
   \<and> scan_line (''GHO = Ghana'' @ [LF]) [] = [''GHO'']
   \<and> read_tags_from_file ''broken.txt'' tag_files =
       ([], tag_files\<lparr>stdout := [ErrorLine ''Error reading tags file: '' UnicodeDecodeError]\<rparr>)"
proof -
  have m: "files tag_files ''missing.txt'' = None"
    by (simp add: tag_files_def)
  have b: "files tag_files ''broken.txt'' = Some (File (Undecodable (''GHO = Ghana'' @ [LF])))
      \<and> read_refused tag_files ''broken.txt'' = None"
    by (simp add: tag_files_def)
  have l: "scan_line (''GHO = Ghana'' @ [LF]) [] = [''GHO'']"
    by (simp add: text_eval)
  have o: "stdout tag_files = []"
    by (simp add: tag_files_def)
  show ?thesis
    using read_tags_error [of "''missing.txt''" tag_files]
      read_tags_error [of "''broken.txt''" tag_files] m b l o
    by (simp add: print_def error_line_def)
qed

end
